theory Spec2Isabelle
  imports Main "HOL-Library.Sublist" "HOL-Library.Multiset"
begin

section \<open>Text, characters and Python string operations\<close>

text \<open>
  The three scripts work on Python \<open>str\<close> values. A text is modelled as a \<open>string\<close>
  whose characters are code points below 128 (ASCII), which is what the scanned Python
  and C\# sources and the dotted module paths are made of. The character classes and case
  mappings below are those of Python 3 on that range; a \<open>char\<close> from 128 on is treated as
  neither whitespace, nor a word character, nor cased.
\<close>

datatype py_error = IndexError | FileReadError

definition code :: "char \<Rightarrow> nat" where
  "code c = of_char c"

definition is_word :: "char \<Rightarrow> bool" where
  \<comment> \<open>\<open>\w\<close>: letters, digits and the underscore\<close>
  "is_word c = ((48 \<le> code c \<and> code c \<le> 57) \<or> (65 \<le> code c \<and> code c \<le> 90)
      \<or> (97 \<le> code c \<and> code c \<le> 122) \<or> code c = 95)"

definition is_space :: "char \<Rightarrow> bool" where
  \<comment> \<open>\<open>\s\<close> and \<open>str.isspace\<close>: tab, newline, VT, FF, CR, the separators 28 to 31, space\<close>
  "is_space c = ((9 \<le> code c \<and> code c \<le> 13) \<or> (28 \<le> code c \<and> code c \<le> 32))"

definition is_upper :: "char \<Rightarrow> bool" where
  "is_upper c = (65 \<le> code c \<and> code c \<le> 90)"

definition is_lower :: "char \<Rightarrow> bool" where
  "is_lower c = (97 \<le> code c \<and> code c \<le> 122)"

definition is_cased :: "char \<Rightarrow> bool" where
  "is_cased c = (is_upper c \<or> is_lower c)"

definition upper_char :: "char \<Rightarrow> char" where
  "upper_char c = (if is_lower c then char_of (code c - 32) else c)"

definition lower_char :: "char \<Rightarrow> char" where
  "lower_char c = (if is_upper c then char_of (code c + 32) else c)"

definition upper :: "string \<Rightarrow> string" where
  \<comment> \<open>\<open>str.upper()\<close>\<close>
  "upper s = map upper_char s"

fun title_from :: "bool \<Rightarrow> string \<Rightarrow> string" where
  \<comment> \<open>\<open>str.title()\<close>: a character after a cased one is lower-cased, any other is
    title-cased; the flag says whether the previous character was cased\<close>
  "title_from previous_is_cased [] = []"
| "title_from previous_is_cased (c # cs) =
     (if previous_is_cased then lower_char c else upper_char c) # title_from (is_cased c) cs"

definition title :: "string \<Rightarrow> string" where
  "title s = title_from False s"

definition startswith :: "string \<Rightarrow> string \<Rightarrow> bool" where
  \<comment> \<open>\<open>s.startswith(p)\<close>\<close>
  "startswith s p = (take (length p) s = p)"

fun split_on :: "char \<Rightarrow> string \<Rightarrow> string list" where
  \<comment> \<open>\<open>s.split(sep)\<close> for a one-character separator. The result is never empty (the
    split of the empty string is the list of the empty string), so a character that is not
    the separator always goes in front of the first piece of the rest.\<close>
  "split_on sep [] = [[]]"
| "split_on sep (c # cs) =
     (if c = sep then [] # split_on sep cs
      else (case split_on sep cs of [] \<Rightarrow> [[c]] | w # ws \<Rightarrow> (c # w) # ws))"

fun join :: "string \<Rightarrow> string list \<Rightarrow> string" where
  \<comment> \<open>\<open>sep.join(xs)\<close>\<close>
  "join sep [] = []"
| "join sep [x] = x"
| "join sep (x # y # ys) = x @ sep @ join sep (y # ys)"

definition strip :: "string \<Rightarrow> string" where
  \<comment> \<open>\<open>s.strip()\<close>: whitespace removed at both ends\<close>
  "strip s = rev (dropWhile is_space (rev (dropWhile is_space s)))"

definition index :: "'a list \<Rightarrow> nat \<Rightarrow> py_error + 'a" where
  \<comment> \<open>\<open>xs[i]\<close> for a non-negative index: out of range raises\<close>
  "index xs i = (if i < length xs then Inr (xs ! i) else Inl IndexError)"

fun digits :: "nat \<Rightarrow> string" where
  \<comment> \<open>the decimal numeral of a number\<close>
  "digits n = (if n < 10 then [char_of (48 + n)] else digits (n div 10) @ [char_of (48 + n mod 10)])"

definition format_3d :: "nat \<Rightarrow> string" where
  \<comment> \<open>the format specification \<open>3d\<close>: right-aligned in a field of width 3\<close>
  "format_3d n = replicate (3 - length (digits n)) CHR '' '' @ digits n"

section \<open>Path Mapper: \<open>analyze_porting_status.py\<close>\<close>

definition map_parts :: "string \<Rightarrow> py_error + string" where
  \<comment> \<open>the body of \<open>map_python_to_csharp\<close> from the line \<open>parts = python_path.split(".")\<close> on\<close>
  "map_parts python_path =
     (let parts = split_on CHR ''.'' python_path in
      if length parts > 1 \<and> parts ! 0 = ''resource'' \<and> parts ! 1 = ''formats'' then
        (case index parts 2 of
           Inl e \<Rightarrow> Inl e
         | Inr p2 \<Rightarrow>
            (let format_name = upper p2 in
             if length parts > 3
             then Inr (''Formats.'' @ format_name @ ''.'' @ join ''.'' (drop 3 parts))
             else Inr (''Formats.'' @ format_name)))
      else Inr (join ''.'' (map title parts)))"

definition map_python_to_csharp :: "string \<Rightarrow> py_error + string" where
  "map_python_to_csharp python_path =
     (if startswith python_path ''pykotor.'' then map_parts (drop 8 python_path)
      else if startswith python_path ''utility.'' then Inr (''Utility.'' @ drop 8 python_path)
      else map_parts python_path)"

section \<open>Regular expressions of the scripts\<close>

text \<open>
  The patterns of the scripts are sequences of literals, the line anchor \<open>^\<close> (under
  \<open>re.MULTILINE\<close>), quantified character classes and capture groups. A pattern is a list
  of atoms; the group brackets are atoms of their own, as in the compiled form of a
  pattern. The matcher is a backtracking matcher: for each atom it lists the ways to match
  it at the current position in the order Python tries them (a greedy quantifier from the
  longest run down, a lazy one from the shortest up), and the first complete way through
  the whole pattern is the match.
\<close>

datatype atom =
    Lit string
  | Bol
  | Plus "char \<Rightarrow> bool"
  | Star "char \<Rightarrow> bool"
  | LazyStar "char \<Rightarrow> bool"
  | GOpen
  | GClose

record mstate =
  prev :: "char option"     \<comment> \<open>the character before the current position, if any\<close>
  groups :: "string list"   \<comment> \<open>the closed groups, in order\<close>
  cur :: "string option"    \<comment> \<open>the text of the open group, if one is open\<close>

fun runs :: "(char \<Rightarrow> bool) \<Rightarrow> string \<Rightarrow> (string \<times> string) list" where
  \<comment> \<open>every way to cut a run of characters of a class off the front, shortest first\<close>
  "runs p [] = [([], [])]"
| "runs p (c # cs) =
     ([], c # cs) # (if p c then map (\<lambda>(a, r). (c # a, r)) (runs p cs) else [])"

fun alts :: "atom \<Rightarrow> char option \<Rightarrow> string \<Rightarrow> (string \<times> string) list" where
  \<comment> \<open>the (consumed, rest) alternatives of one atom, in the order they are tried\<close>
  "alts (Lit l) pv s = (if startswith s l then [(l, drop (length l) s)] else [])"
| "alts Bol pv s = (if pv = None \<or> pv = Some CHR 0x0A then [([], s)] else [])"
| "alts (Plus p) pv s = rev (filter (\<lambda>(a, r). a \<noteq> []) (runs p s))"
| "alts (Star p) pv s = rev (runs p s)"
| "alts (LazyStar p) pv s = runs p s"
| "alts GOpen pv s = [([], s)]"
| "alts GClose pv s = [([], s)]"

fun upd :: "atom \<Rightarrow> string \<Rightarrow> mstate \<Rightarrow> mstate" where
  \<comment> \<open>the state after an atom has consumed a piece of text\<close>
  "upd GOpen c st = st\<lparr>cur := Some []\<rparr>"
| "upd GClose c st =
     (case cur st of None \<Rightarrow> st | Some g \<Rightarrow> st\<lparr>groups := groups st @ [g], cur := None\<rparr>)"
| "upd a c st =
     st\<lparr>prev := (if c = [] then prev st else Some (last c)),
        cur := (case cur st of None \<Rightarrow> None | Some g \<Rightarrow> Some (g @ c))\<rparr>"

fun rx :: "atom list \<Rightarrow> mstate \<Rightarrow> string \<Rightarrow> (mstate \<times> string) list" where
  \<comment> \<open>every way to match the pattern at the front of the text, in backtracking order\<close>
  "rx [] st s = [(st, s)]"
| "rx (a # as) st s = concat (map (\<lambda>(c, r). rx as (upd a c st) r) (alts a (prev st) s))"

definition match_at :: "atom list \<Rightarrow> char option \<Rightarrow> string \<Rightarrow> (string list \<times> char option \<times> string) option" where
  \<comment> \<open>the match of the pattern starting exactly here: its groups, the last character
    before its end, and the text after it\<close>
  "match_at pat pv s =
     (case rx pat \<lparr>prev = pv, groups = [], cur = None\<rparr> s of
        [] \<Rightarrow> None
      | (st, r) # _ \<Rightarrow> Some (groups st, prev st, r))"

function finditer_from :: "atom list \<Rightarrow> nat \<Rightarrow> char option \<Rightarrow> string \<Rightarrow> (nat \<times> string list) list" where
  \<comment> \<open>\<open>re.finditer\<close>: the leftmost match from the current position, then on from its
    end, so that matches do not overlap. The patterns of the scripts consume at least one
    character (lemma \<open>match_at_shorter\<close> below), so a match always moves the position on;
    the branch for a match that would not is never taken by them.\<close>
  "finditer_from pat off pv s =
     (case match_at pat pv s of
        Some (g, pv', r) \<Rightarrow>
          if length r < length s
          then (off, g) # finditer_from pat (off + (length s - length r)) pv' r
          else (case s of [] \<Rightarrow> [(off, g)] | c # cs \<Rightarrow> (off, g) # finditer_from pat (Suc off) (Some c) cs)
      | None \<Rightarrow>
          (case s of [] \<Rightarrow> [] | c # cs \<Rightarrow> finditer_from pat (Suc off) (Some c) cs))"
  by pat_completeness auto
termination
  by (relation "measure (\<lambda>(pat, off, pv, s). length s)") auto

definition finditer :: "atom list \<Rightarrow> string \<Rightarrow> (nat \<times> string list) list" where
  \<comment> \<open>the matches of a pattern in a text: start offset (\<open>match.start()\<close>) and groups\<close>
  "finditer pat content = finditer_from pat 0 None content"

definition before :: "char option \<Rightarrow> string \<Rightarrow> char option" where
  \<comment> \<open>the character before the position reached after a piece of text, given the one before the piece\<close>
  "before pv pre = (if pre = [] then pv else Some (last pre))"

definition findall1 :: "atom list \<Rightarrow> string \<Rightarrow> string list" where
  \<comment> \<open>\<open>re.findall\<close> for a pattern with one group: the group of each match\<close>
  "findall1 pat content = map (\<lambda>(off, g). g ! 0) (finditer pat content)"

definition not_char :: "char \<Rightarrow> char \<Rightarrow> bool" where
  \<comment> \<open>the class \<open>[^x]\<close>\<close>
  "not_char x c = (c \<noteq> x)"

definition class_pattern :: "atom list" where
  \<comment> \<open>\<open>^class (Test\w+):\<close>\<close>
  "class_pattern = [Bol, Lit ''class '', GOpen, Lit ''Test'', Plus is_word, GClose, Lit '':'']"

definition test_pattern :: "atom list" where
  \<comment> \<open>\<open>^\s+def (test_\w+)\(([^)]*)\):\<close>\<close>
  "test_pattern =
     [Bol, Plus is_space, Lit ''def '', GOpen, Lit ''test_'', Plus is_word, GClose, Lit ''('',
      GOpen, Star (not_char CHR '')''), GClose, Lit '')'', Lit '':'']"

definition doc_pattern :: "atom list" where
  \<comment> \<open>\<open>^\s+def (test_\w+)\([^)]*\):\s*\n(\s+)"""([^"]*?)"""\<close>\<close>
  "doc_pattern =
     [Bol, Plus is_space, Lit ''def '', GOpen, Lit ''test_'', Plus is_word, GClose, Lit ''('',
      Star (not_char CHR '')''), Lit '')'', Lit '':'', Star is_space, Lit [CHR 0x0A],
      GOpen, Plus is_space, GClose, Lit [CHR 0x22, CHR 0x22, CHR 0x22],
      GOpen, LazyStar (not_char (CHR 0x22)), GClose, Lit [CHR 0x22, CHR 0x22, CHR 0x22]]"

definition marker_pattern :: "atom list" where
  \<comment> \<open>\<open>// Original: def (test_\w+)\(\<close>\<close>
  "marker_pattern =
     [Lit ''// Original: def '', GOpen, Lit ''test_'', Plus is_word, GClose, Lit ''('']"

section \<open>Structural Test Indexer: \<open>extract-indoor-builder-tests.py\<close>\<close>

function advance :: "(nat \<times> string) list \<Rightarrow> nat \<Rightarrow> nat \<Rightarrow> nat" where
  \<comment> \<open>the inner \<open>while\<close> loop: the cursor moves on while the next class starts before the test\<close>
  "advance classes current_class_idx test_start =
     (if int current_class_idx < int (length classes) - 1
         \<and> test_start > fst (classes ! (current_class_idx + 1))
      then advance classes (current_class_idx + 1) test_start
      else current_class_idx)"
  by pat_completeness auto
termination
  by (relation "measure (\<lambda>(classes, i, t). length classes - i)") auto

fun group_tests :: "(nat \<times> string) list \<Rightarrow> nat \<Rightarrow> (nat \<times> string \<times> string) list
    \<Rightarrow> (string \<times> string \<times> string) list" where
  \<comment> \<open>the \<open>for\<close> loop over the tests; the cursor is kept from one test to the next\<close>
  "group_tests classes current_class_idx [] = []"
| "group_tests classes current_class_idx ((test_start, test_name, test_params) # tests) =
     (let idx = advance classes current_class_idx test_start;
          class_name = (if idx < length classes then snd (classes ! idx) else ''Unknown'')
      in (class_name, test_name, test_params) # group_tests classes idx tests)"

definition find_classes :: "string \<Rightarrow> (nat \<times> string) list" where
  "find_classes content = map (\<lambda>(off, g). (off, g ! 0)) (finditer class_pattern content)"

definition find_tests :: "string \<Rightarrow> (nat \<times> string \<times> string) list" where
  "find_tests content = map (\<lambda>(off, g). (off, g ! 0, g ! 1)) (finditer test_pattern content)"

definition extract_tests :: "string \<Rightarrow> (string \<times> string \<times> string) list" where
  \<comment> \<open>\<open>extract_tests\<close>, from the text of the file on\<close>
  "extract_tests content = group_tests (find_classes content) 0 (find_tests content)"

datatype fs_node = File string | Unreadable

type_synonym file_system = "string \<rightharpoonup> fs_node"

datatype outcome =
    Exit "string list" "string list" nat  \<comment> \<open>the texts printed to stdout, to stderr, the exit status\<close>
  | Uncaught py_error

definition python_file :: string where
  "python_file = ''vendor/PyKotor/Tools/HolocronToolset/tests/gui/windows/test_indoor_builder.py''"

fun test_lines :: "nat \<Rightarrow> (string \<times> string \<times> string) list \<Rightarrow> string list" where
  \<comment> \<open>the numbered listing, \<open>enumerate(tests, 1)\<close>\<close>
  "test_lines i [] = []"
| "test_lines i ((class_name, test_name, test_params) # tests) =
     (format_3d i @ ''. '' @ class_name @ ''::'' @ test_name) # test_lines (Suc i) tests"

definition extract_main :: "file_system \<Rightarrow> outcome" where
  \<comment> \<open>the \<open>__main__\<close> block of the indexer script\<close>
  "extract_main fs =
     (case fs python_file of
        None \<Rightarrow> Exit [] [''Error: '' @ python_file @ '' not found''] 1
      | Some Unreadable \<Rightarrow> Uncaught FileReadError
      | Some (File content) \<Rightarrow>
          (let tests = extract_tests content in
           Exit ([''Total tests: '' @ digits (length tests), [CHR 0x0A] @ ''Test list:'']
                 @ test_lines 1 tests) [] 0))"

section \<open>Diff Reporter: \<open>generate-remaining-tests.py\<close>\<close>

definition python_tests :: "string \<Rightarrow> (string \<times> string) list" where
  \<comment> \<open>the first loop: name and first line of the stripped docstring of each match\<close>
  "python_tests python_content =
     map (\<lambda>(off, g). (g ! 0, hd (split_on (CHR 0x0A) (strip (g ! 2)))))
       (finditer doc_pattern python_content)"

definition ported :: "string \<Rightarrow> string set" where
  "ported csharp_content = set (findall1 marker_pattern csharp_content)"

fun missing :: "(string \<times> string) list \<Rightarrow> string set \<Rightarrow> (string \<times> string) list" where
  \<comment> \<open>the list comprehension, entry by entry in order\<close>
  "missing [] p = []"
| "missing ((name, doc) # tests) p =
     (if name \<notin> p then (name, doc) # missing tests p else missing tests p)"

record diff_result =
  total :: nat
  ported_count :: nat
  missing_entries :: "(string \<times> string) list"

definition diff :: "(string \<times> string) list \<Rightarrow> string \<Rightarrow> diff_result" where
  \<comment> \<open>the script from the line \<open>ported = set(...)\<close> on: what the three counts print and
    the list that is printed\<close>
  "diff tests csharp_content =
     \<lparr>total = length tests,
      ported_count = card (ported csharp_content),
      missing_entries = missing tests (ported csharp_content)\<rparr>"

definition generate_remaining_tests :: "string \<Rightarrow> string \<Rightarrow> diff_result" where
  "generate_remaining_tests python_content csharp_content =
     diff (python_tests python_content) csharp_content"

section \<open>Helper lemmas\<close>

lemma missing_filter: "missing tests p = filter (\<lambda>(name, doc). name \<notin> p) tests"
  by (induction tests p rule: missing.induct) auto

lemma marker_scan_twice:
  "findall1 marker_pattern
     ''// Original: def test_bar(self):\<newline>void TestBar() {}\<newline>// Original: def test_bar(self):\<newline>''
   = [''test_bar'', ''test_bar'']"
  by code_simp

subsection \<open>Splitting and joining\<close>

lemma split_on_nonempty: "split_on sep s \<noteq> []"
  by (induction s) (auto split: list.splits)

lemma split_on_Cons:
  "split_on sep (c # cs) =
     (if c = sep then [] # split_on sep cs
      else (c # hd (split_on sep cs)) # tl (split_on sep cs))"
  using split_on_nonempty [of sep cs] by (cases "split_on sep cs") auto

declare split_on.simps(2) [simp del]

lemma split_on_no_sep: "sep \<notin> set a \<Longrightarrow> split_on sep a = [a]"
  by (induction a) (auto simp: split_on_Cons)

lemma split_on_append: "sep \<notin> set a \<Longrightarrow> split_on sep (a @ sep # s) = a # split_on sep s"
  by (induction a) (auto simp: split_on_Cons)

lemma split_on_segments: "x \<in> set (split_on sep s) \<Longrightarrow> sep \<notin> set x"
proof (induction s arbitrary: x)
  case Nil
  then show ?case by simp
next
  case (Cons c cs)
  obtain w ws where ws: "split_on sep cs = w # ws"
    using split_on_nonempty [of sep cs] by (cases "split_on sep cs") auto
  show ?case
  proof (cases "c = sep")
    case True
    with Cons show ?thesis by (auto simp: split_on_Cons)
  next
    case False
    with Cons.prems ws have "x = c # w \<or> x \<in> set ws" by (simp add: split_on_Cons)
    then show ?thesis
      using Cons.IH [of w] Cons.IH [of x] ws False by auto
  qed
qed

lemma join_split: "join [sep] (split_on sep s) = s"
proof (induction s)
  case Nil
  then show ?case by simp
next
  case (Cons c cs)
  obtain w ws where ws: "split_on sep cs = w # ws"
    using split_on_nonempty [of sep cs] by (cases "split_on sep cs") auto
  show ?case
    using Cons ws by (cases ws) (auto simp: split_on_Cons)
qed

lemma split_join:
  "xs \<noteq> [] \<Longrightarrow> \<forall>x \<in> set xs. sep \<notin> set x \<Longrightarrow> split_on sep (join [sep] xs) = xs"
proof (induction xs rule: induct_list012)
  case 1
  then show ?case by simp
next
  case (2 x)
  then show ?case by (simp add: split_on_no_sep)
next
  case (3 x y ys)
  then show ?case by (simp add: split_on_append)
qed




lemma split_on_all_segments:
  "split_on sep p = xs \<Longrightarrow> \<forall>y \<in> set xs. sep \<notin> set y"
  using split_on_segments by blast

subsection \<open>The matcher and the scan\<close>

lemma runs_iff: "(a, r) \<in> set (runs p s) \<longleftrightarrow> s = a @ r \<and> list_all p a"
proof (induction s arbitrary: a r)
  case Nil
  then show ?case by auto
next
  case (Cons c cs)
  show ?case
  proof (cases a)
    case Nil
    then show ?thesis by auto
  next
    case (Cons x xs)
    then show ?thesis
      using Cons.IH [of xs r] by auto
  qed
qed

lemma startswith_iff: "startswith s l \<longleftrightarrow> (\<exists>r. s = l @ r)"
  unfolding startswith_def
  by (metis append_eq_conv_conj append_take_drop_id)

lemma alts_Lit: "(c, r) \<in> set (alts (Lit l) pv s) \<longleftrightarrow> c = l \<and> s = l @ r"
  by (auto simp: startswith_iff)

lemma alts_Bol:
  "(c, r) \<in> set (alts Bol pv s) \<longleftrightarrow> c = [] \<and> r = s \<and> (pv = None \<or> pv = Some (CHR 0x0A))"
  by auto

lemma alts_Plus: "(c, r) \<in> set (alts (Plus p) pv s) \<longleftrightarrow> c \<noteq> [] \<and> s = c @ r \<and> list_all p c"
  by (auto simp: runs_iff)

lemma alts_Star: "(c, r) \<in> set (alts (Star p) pv s) \<longleftrightarrow> s = c @ r \<and> list_all p c"
  by (auto simp: runs_iff)

lemma alts_LazyStar: "(c, r) \<in> set (alts (LazyStar p) pv s) \<longleftrightarrow> s = c @ r \<and> list_all p c"
  by (auto simp: runs_iff)

lemma alts_GOpen: "(c, r) \<in> set (alts GOpen pv s) \<longleftrightarrow> c = [] \<and> r = s"
  by auto

lemma alts_GClose: "(c, r) \<in> set (alts GClose pv s) \<longleftrightarrow> c = [] \<and> r = s"
  by auto

lemmas alts_iff = alts_Lit alts_Bol alts_Plus alts_Star alts_LazyStar alts_GOpen alts_GClose


lemma alts_group_atoms: "(c, r) \<in> set (alts a pv s) \<Longrightarrow> a = GOpen \<or> a = GClose \<Longrightarrow> c = []"
  by (auto simp: alts_iff)


lemma rx_Cons_iff:
  "(st', r) \<in> set (rx (a # as) st s) \<longleftrightarrow>
     (\<exists>c r1. (c, r1) \<in> set (alts a (prev st) s) \<and> (st', r) \<in> set (rx as (upd a c st) r1))"
  by auto

lemma rx_Nil_iff: "(st', r) \<in> set (rx [] st s) \<longleftrightarrow> st' = st \<and> r = s"
  by auto


lemma match_at_Some:
  "match_at pat pv s = Some (g, pv', r) \<Longrightarrow>
     \<exists>st. (st, r) \<in> set (rx pat \<lparr>prev = pv, groups = [], cur = None\<rparr> s) \<and> g = groups st \<and> pv' = prev st"
  unfolding match_at_def by (auto split: list.splits)


declare finditer_from.simps [simp del]






lemma before_simps [simp]:
  "before pv [] = pv"
  "before pv (c # pre) = before (Some c) pre"
  "before (before pv a) b = before pv (a @ b)"
  by (auto simp: before_def)



declare rx.simps [simp del]

lemma rx_ConsE:
  assumes "(st', r) \<in> set (rx (a # as) st s)"
  obtains c r1 where "(c, r1) \<in> set (alts a (prev st) s)" "(st', r) \<in> set (rx as (upd a c st) r1)"
  using assms unfolding rx_Cons_iff by blast

lemma marker_pattern_match:
  assumes "match_at marker_pattern pv s = Some (g, pv', r)"
  shows "\<exists>w. s = ''// Original: def test_'' @ w @ ''('' @ r \<and> w \<noteq> [] \<and> list_all is_word w
           \<and> g = [''test_'' @ w]"
proof -
  from match_at_Some [OF assms] obtain st where
    st: "(st, r) \<in> set (rx marker_pattern \<lparr>prev = pv, groups = [], cur = None\<rparr> s)"
    and g: "g = groups st"
    by blast
  from st show ?thesis
    unfolding marker_pattern_def g
    apply (elim rx_ConsE)
    apply (simp only: alts_iff rx_Nil_iff)
    apply (elim conjE)
    apply simp
    done
qed


lemma test_pattern_match_raw:
  assumes "match_at test_pattern pv s = Some (g, pv', r)"
  shows "\<exists>ws w params. s = ws @ ''def '' @ ''test_'' @ w @ ''('' @ params @ '')'' @ '':'' @ r
           \<and> (pv = None \<or> pv = Some (CHR 0x0A))
           \<and> ws \<noteq> [] \<and> list_all is_space ws \<and> w \<noteq> [] \<and> list_all is_word w
           \<and> list_all (not_char CHR '')'') params \<and> g = [''test_'' @ w, params]"
proof -
  from match_at_Some [OF assms] obtain st where
    st: "(st, r) \<in> set (rx test_pattern \<lparr>prev = pv, groups = [], cur = None\<rparr> s)"
    and g: "g = groups st"
    by blast
  from st show ?thesis
    unfolding test_pattern_def g
    apply (elim rx_ConsE)
    apply (simp only: alts_iff rx_Nil_iff)
    apply (elim conjE)
    apply hypsubst
    apply (intro exI conjI)
           apply (rule refl)
          apply simp_all
    done
qed

lemma doc_pattern_match_raw:
  assumes "match_at doc_pattern pv s = Some (g, pv', r)"
  shows "\<exists>ws w params sp1 sp2 doc.
           s = ws @ ''def '' @ ''test_'' @ w @ ''('' @ params @ '')'' @ '':'' @ sp1 @ [CHR 0x0A] @ sp2
               @ [CHR 0x22, CHR 0x22, CHR 0x22] @ doc @ [CHR 0x22, CHR 0x22, CHR 0x22] @ r
           \<and> (pv = None \<or> pv = Some (CHR 0x0A))
           \<and> ws \<noteq> [] \<and> list_all is_space ws \<and> w \<noteq> [] \<and> list_all is_word w
           \<and> list_all (not_char CHR '')'') params
           \<and> list_all is_space sp1 \<and> sp2 \<noteq> [] \<and> list_all is_space sp2
           \<and> list_all (not_char (CHR 0x22)) doc
           \<and> g = [''test_'' @ w, sp2, doc]"
proof -
  from match_at_Some [OF assms] obtain st where
    st: "(st, r) \<in> set (rx doc_pattern \<lparr>prev = pv, groups = [], cur = None\<rparr> s)"
    and g: "g = groups st"
    by blast
  from st show ?thesis
    unfolding doc_pattern_def g
    apply (elim rx_ConsE)
    apply (simp only: alts_iff rx_Nil_iff)
    apply (elim conjE)
    apply hypsubst
    apply (intro exI conjI)
               apply (rule refl)
              apply simp_all
    done
qed

lemma class_pattern_match_raw:
  assumes "match_at class_pattern pv s = Some (g, pv', r)"
  shows "\<exists>w. s = ''class '' @ ''Test'' @ w @ '':'' @ r
           \<and> (pv = None \<or> pv = Some (CHR 0x0A))
           \<and> w \<noteq> [] \<and> list_all is_word w \<and> g = [''Test'' @ w]"
proof -
  from match_at_Some [OF assms] obtain st where
    st: "(st, r) \<in> set (rx class_pattern \<lparr>prev = pv, groups = [], cur = None\<rparr> s)"
    and g: "g = groups st"
    by blast
  from st show ?thesis
    unfolding class_pattern_def g
    apply (elim rx_ConsE)
    apply (simp only: alts_iff rx_Nil_iff)
    apply (elim conjE)
    apply hypsubst
    apply (intro exI conjI)
        apply (rule refl)
       apply simp_all
    done
qed

lemma match_at_shorter:
  assumes "pat = class_pattern \<or> pat = test_pattern \<or> pat = doc_pattern \<or> pat = marker_pattern"
    and "match_at pat pv s = Some (g, pv', r)"
  shows "length r < length s"
proof -
  consider "pat = class_pattern" | "pat = test_pattern" | "pat = doc_pattern" | "pat = marker_pattern"
    using assms(1) by blast
  then show ?thesis
  proof cases
    case 1
    with assms(2) class_pattern_match_raw [of pv s g pv' r] show ?thesis by auto
  next
    case 2
    with assms(2) test_pattern_match_raw [of pv s g pv' r] show ?thesis by auto
  next
    case 3
    with assms(2) doc_pattern_match_raw [of pv s g pv' r] show ?thesis by auto
  next
    case 4
    with assms(2) marker_pattern_match [of pv s g pv' r] show ?thesis by auto
  qed
qed

declare advance.simps [simp del]





subsection \<open>Completeness of the marker scan\<close>











section \<open>Path Mapper: properties\<close>

text \<open>
  C1. The claim: \<open>map\<close> is total on every non-empty path, in particular on the two-segment
  path \<open>["resource", "formats"]\<close>. The code tests \<open>len(parts) > 1\<close> and then reads
  \<open>parts[2]\<close>: on the dotted path \<open>resource.formats\<close>, with or without the \<open>pykotor.\<close>
  prefix, it raises IndexError instead of returning a namespace path.
\<close>

theorem map_python_to_csharp_two_segments_raises:
  "map_python_to_csharp ''resource.formats'' = Inl IndexError
   \<and> map_python_to_csharp ''pykotor.resource.formats'' = Inl IndexError"
  by code_simp



text \<open>
  C7. For every path whose first segment is \<open>utility\<close>, the result is the dotted path
  of the segment \<open>Utility\<close> followed by the remaining segments unchanged;
  \<open>utility.io.stream\<close> gives \<open>Utility.io.stream\<close>.
\<close>

theorem map_utility:
  assumes "split_on CHR ''.'' p = ''utility'' # rest"
  shows "map_python_to_csharp p = Inr (join ''.'' (''Utility'' # rest))
    \<and> split_on CHR ''.'' (join ''.'' (''Utility'' # rest)) = ''Utility'' # rest"
proof -
  have "join ''.'' (split_on CHR ''.'' p) = p"
    by (rule join_split)
  then have p: "p = join ''.'' (''utility'' # rest)"
    unfolding assms by simp
  have "\<forall>y \<in> set (''utility'' # rest). CHR ''.'' \<notin> set y"
    using assms by (rule split_on_all_segments)
  then have "\<forall>y \<in> set (''Utility'' # rest). CHR ''.'' \<notin> set y"
    by simp
  then have s: "split_on CHR ''.'' (join ''.'' (''Utility'' # rest)) = ''Utility'' # rest"
    by (intro split_join) simp_all
  have "map_python_to_csharp p = Inr (join ''.'' (''Utility'' # rest))"
  proof (cases rest)
    case Nil
    have "map_python_to_csharp ''utility'' = Inr ''Utility''"
      by code_simp
    then show ?thesis
      unfolding p Nil by simp
  next
    case (Cons y ys)
    have "map_python_to_csharp (''utility.'' @ t) = Inr (''Utility.'' @ t)" for t
      unfolding map_python_to_csharp_def startswith_def by simp
    from this [of "join ''.'' rest"] show ?thesis
      unfolding p Cons by simp
  qed
  with s show ?thesis by simp
qed

theorem map_utility_witness:
  "map_python_to_csharp ''utility.io.stream'' = Inr ''Utility.io.stream''
   \<and> split_on CHR ''.'' ''Utility.io.stream'' = [''Utility'', ''io'', ''stream'']"
proof -
  have h: "split_on CHR ''.'' ''utility.io.stream'' = ''utility'' # [''io'', ''stream'']"
    by code_simp
  have j: "join ''.'' [''Utility'', ''io'', ''stream''] = ''Utility.io.stream''"
    by simp
  show ?thesis
    using map_utility [OF h] unfolding j by simp
qed

section \<open>Structural Test Indexer: properties\<close>

text \<open>
  C2. The claim: a test that comes before the first class declaration of a file with class
  declarations gets the class \<open>Unknown\<close>. The cursor of the code starts at the first
  recorded class and \<open>Unknown\<close> is only produced when no class was recorded at all: here
  \<open>test_a\<close>, at offset 14 inside \<open>class Helper\<close>, precedes the only recorded class
  \<open>TestFoo\<close> at offset 49 and is reported as a test of \<open>TestFoo\<close>.
\<close>

theorem extract_tests_before_first_class:
  "find_classes ''class Helper:\<newline>    def test_a(self):\<newline>        pass\<newline>class TestFoo:\<newline>    def test_b(self):\<newline>        pass\<newline>''
     = [(49, ''TestFoo'')]
   \<and> find_tests ''class Helper:\<newline>    def test_a(self):\<newline>        pass\<newline>class TestFoo:\<newline>    def test_b(self):\<newline>        pass\<newline>''
     = [(14, ''test_a'', ''self''), (64, ''test_b'', ''self'')]
   \<and> extract_tests ''class Helper:\<newline>    def test_a(self):\<newline>        pass\<newline>class TestFoo:\<newline>    def test_b(self):\<newline>        pass\<newline>''
     = [(''TestFoo'', ''test_a'', ''self''), (''TestFoo'', ''test_b'', ''self'')]"
  by code_simp

text \<open>
  C8. When the origin test file does not exist, the entry point of the indexer prints
  nothing to standard output, prints one diagnostic that names the path to the error
  stream, and exits with status 1.
\<close>

theorem extract_main_missing_file:
  "fs python_file = None \<Longrightarrow>
     extract_main fs = Exit [] [''Error: '' @ python_file @ '' not found''] 1"
  by (simp add: extract_main_def)

theorem extract_main_missing_file_witness:
  "extract_main Map.empty =
     Exit [] [''Error: vendor/PyKotor/Tools/HolocronToolset/tests/gui/windows/test_indoor_builder.py not found''] 1"
  using extract_main_missing_file [of Map.empty] by (simp add: python_file_def)




section \<open>Diff Reporter: properties\<close>

text \<open>
  C3. The claim: a test function without a documentation block still yields an entry, with
  an empty doc field. The pattern of the diff script requires the docstring, so such a
  function yields no entry at all: \<open>test_bar\<close> below is found by the indexer script
  (\<open>find_tests\<close>) and is missing from \<open>python_tests\<close>, from the total and from the
  missing list.
\<close>

theorem python_tests_omits_undocumented:
  "find_tests ''class TestFoo:\<newline>    def test_bar(self):\<newline>        pass\<newline>''
     = [(15, ''test_bar'', ''self'')]
   \<and> python_tests ''class TestFoo:\<newline>    def test_bar(self):\<newline>        pass\<newline>'' = []
   \<and> generate_remaining_tests
        ''class TestFoo:\<newline>    def test_bar(self):\<newline>        pass\<newline>'' []
     = \<lparr>total = 0, ported_count = 0, missing_entries = []\<rparr>"
  by code_simp

text \<open>
  C4. For every entry sequence and every ported text, the missing list is the entries whose
  name is not in the marker set, in input order; it is a subsequence of the entries; the
  missing entries and the entries whose name is in the marker set together are the entries,
  each once; so its length is the number of entries minus the number of entries whose name
  is in the marker set.
\<close>

theorem diff_missing_is_ordered_difference:
  "missing_entries (diff entries ported_text)
     = filter (\<lambda>(name, doc). name \<notin> ported ported_text) entries
   \<and> subseq (missing_entries (diff entries ported_text)) entries
   \<and> mset (missing_entries (diff entries ported_text))
       + mset (filter (\<lambda>(name, doc). name \<in> ported ported_text) entries) = mset entries
   \<and> length (missing_entries (diff entries ported_text))
       = length entries - length (filter (\<lambda>(name, doc). name \<in> ported ported_text) entries)"
proof -
  let ?P = "\<lambda>(name, doc). name \<in> ported ported_text"
  have not_P: "(\<lambda>(name, doc). name \<notin> ported ported_text) = (\<lambda>e. \<not> ?P e)"
    by auto
  have m: "missing_entries (diff entries ported_text) = filter (\<lambda>e. \<not> ?P e) entries"
    by (simp add: diff_def missing_filter not_P)
  have part: "mset (filter (\<lambda>e. \<not> ?P e) entries) + mset (filter ?P entries) = mset entries"
    by (induction entries) auto
  have len: "length (filter (\<lambda>e. \<not> ?P e) entries) + length (filter ?P entries) = length entries"
    by (induction entries) auto
  show ?thesis
    using part len by (simp add: m not_P)
qed

text \<open>
  C5. The total is the number of entries and the ported count is the cardinality of the
  marker set of the ported text. With a ported text that holds the marker of \<open>test_bar\<close>
  twice and the entries \<open>test_bar\<close> and \<open>test_baz\<close>, the total is 2, the ported count 1
  and the missing list holds \<open>test_baz\<close> only.
\<close>

theorem diff_counts:
  "total (diff entries ported_text) = length entries
   \<and> ported_count (diff entries ported_text) = card (ported ported_text)
   \<and> diff [(''test_bar'', doc1), (''test_baz'', doc2)]
        ''// Original: def test_bar(self):\<newline>void TestBar() {}\<newline>// Original: def test_bar(self):\<newline>''
      = \<lparr>total = 2, ported_count = 1, missing_entries = [(''test_baz'', doc2)]\<rparr>"
  by (simp add: diff_def ported_def marker_scan_twice)



end
